theory Spec2Isabelle
  imports Complex_Main
begin

section \<open>Floating-point values as the dashboard sees them\<close>

text \<open>
  The values read from the data frame are 64-bit floats (numpy scalars): NaN, the two
  infinities, the negative zero, and the finite values, \<open>Fin 0\<close> being the positive
  zero. An ordered comparison with NaN is false and the two zeros compare equal. A sum,
  a difference and a quotient are rounded to the nearest double, ties to even, with
  overflow to an infinity and underflow to a zero of the right sign; a numpy scalar
  division by zero does not raise, it yields NaN or an infinity.
\<close>

datatype fl = NaN | NInf | NZero | Fin real | PInf

fun fval :: "fl \<Rightarrow> real" where
  "fval (Fin x) = x"
| "fval _ = 0"

fun flt :: "fl \<Rightarrow> fl \<Rightarrow> bool" where
  "flt NaN b = False"
| "flt a NaN = False"
| "flt NInf NInf = False"
| "flt NInf b = True"
| "flt a NInf = False"
| "flt PInf b = False"
| "flt a PInf = True"
| "flt a b = (fval a < fval b)"

definition fgt :: "fl \<Rightarrow> fl \<Rightarrow> bool" where
  "fgt a b = flt b a"

fun is_nan :: "fl \<Rightarrow> bool" where
  "is_nan NaN = True"
| "is_nan _ = False"

fun is_inf :: "fl \<Rightarrow> bool" where
  "is_inf NInf = True"
| "is_inf PInf = True"
| "is_inf _ = False"

fun is_zero :: "fl \<Rightarrow> bool" where
  "is_zero NZero = True"
| "is_zero (Fin x) = (x = 0)"
| "is_zero _ = False"

fun sign_bit :: "fl \<Rightarrow> bool" where
  "sign_bit NInf = True"
| "sign_bit NZero = True"
| "sign_bit (Fin x) = (x < 0)"
| "sign_bit _ = False"

text \<open>The float \<open>==\<close>: false on NaN, true on the two zeros.\<close>

definition feq :: "fl \<Rightarrow> fl \<Rightarrow> bool" where
  "feq a b \<longleftrightarrow> \<not> is_nan a \<and> \<not> is_nan b \<and> \<not> flt a b \<and> \<not> flt b a"

definition signed_inf :: "bool \<Rightarrow> fl" where
  "signed_inf negative = (if negative then NInf else PInf)"

definition signed_zero :: "bool \<Rightarrow> fl" where
  "signed_zero negative = (if negative then NZero else Fin 0)"

text \<open>Rounding a real to the nearest integer, ties to even.\<close>

definition rne :: "real \<Rightarrow> int" where
  "rne a =
     (if a - of_int \<lfloor>a\<rfloor> < 1 / 2 then \<lfloor>a\<rfloor>
      else if 1 / 2 < a - of_int \<lfloor>a\<rfloor> then \<lfloor>a\<rfloor> + 1
      else if even \<lfloor>a\<rfloor> then \<lfloor>a\<rfloor> else \<lfloor>a\<rfloor> + 1)"

text \<open>
  The binary exponent of a positive real, kept within the range of a double: the
  largest \<open>e\<close> from -1022 to 1023 with \<open>2 ^ e \<le> a\<close>, and -1022 below that (the
  subnormal range).
\<close>

fun expo_from :: "nat \<Rightarrow> int \<Rightarrow> real \<Rightarrow> int" where
  "expo_from 0 e a = e"
| "expo_from (Suc k) e a = (if 2 powi (e + 1) \<le> a then expo_from k (e + 1) a else e)"

definition expo :: "real \<Rightarrow> int" where
  "expo a = expo_from 2045 (- 1022) a"

text \<open>A positive real rounded to 53 significant bits at its exponent.\<close>

definition round_mag :: "real \<Rightarrow> real" where
  "round_mag a = of_int (rne (a / 2 powi (expo a - 52))) * 2 powi (expo a - 52)"

definition round64 :: "real \<Rightarrow> fl" where
  "round64 z =
     (if z = 0 then Fin 0
      else if 2 ^ 1024 \<le> round_mag \<bar>z\<bar> then signed_inf (z < 0)
      else if round_mag \<bar>z\<bar> = 0 then signed_zero (z < 0)
      else Fin (if z < 0 then - round_mag \<bar>z\<bar> else round_mag \<bar>z\<bar>))"

fun fneg :: "fl \<Rightarrow> fl" where
  "fneg NaN = NaN"
| "fneg NInf = PInf"
| "fneg NZero = Fin 0"
| "fneg (Fin x) = (if x = 0 then NZero else Fin (- x))"
| "fneg PInf = NInf"

fun fadd :: "fl \<Rightarrow> fl \<Rightarrow> fl" where
  "fadd NaN b = NaN"
| "fadd a NaN = NaN"
| "fadd PInf NInf = NaN"
| "fadd NInf PInf = NaN"
| "fadd PInf b = PInf"
| "fadd a PInf = PInf"
| "fadd NInf b = NInf"
| "fadd a NInf = NInf"
| "fadd NZero NZero = NZero"
| "fadd NZero (Fin y) = Fin y"
| "fadd (Fin x) NZero = Fin x"
| "fadd (Fin x) (Fin y) = (if x + y = 0 then Fin 0 else round64 (x + y))"

definition fsub :: "fl \<Rightarrow> fl \<Rightarrow> fl" where
  "fsub a b = fadd a (fneg b)"

definition fdiv :: "fl \<Rightarrow> fl \<Rightarrow> fl" where
  "fdiv a b =
     (if is_nan a \<or> is_nan b then NaN
      else if is_inf a then
        (if is_inf b then NaN else signed_inf (sign_bit a \<noteq> sign_bit b))
      else if is_inf b then signed_zero (sign_bit a \<noteq> sign_bit b)
      else if is_zero b then
        (if is_zero a then NaN else signed_inf (sign_bit a \<noteq> sign_bit b))
      else if is_zero a then signed_zero (sign_bit a \<noteq> sign_bit b)
      else round64 (fval a / fval b))"

section \<open>The signal rules of \<open>main\<close>\<close>

text \<open>
  The latest values the signal rules read: the last entry of the close column and of
  the indicator columns. A value the indicator library left undefined is NaN.
\<close>

record row =
  Close :: fl
  RSI_14 :: fl
  MACD_12_26_9 :: fl
  MACDs_12_26_9 :: fl
  SMA_20 :: fl
  BBL_20_2_0 :: fl
  BBU_20_2_0 :: fl

datatype rsi_status = Overbought | Oversold | Neutral
datatype direction = Bullish | Bearish
datatype bb_status = HighVolatility | LowVolatility | Normal

record snapshot =
  rsiStatus :: rsi_status
  macdStatus :: direction
  bbPercent :: fl
  bollingerStatus :: bb_status
  trendDirection :: direction

definition overbought_line :: string where
  "overbought_line = ''Consider taking profits - RSI indicates overbought condition''"

definition oversold_line :: string where
  "oversold_line = ''Potential buying opportunity - RSI indicates oversold condition''"

definition bullish_line :: string where
  "bullish_line = ''Strong bullish momentum - MACD above signal line''"

definition bearish_line :: string where
  "bearish_line = ''Bearish momentum building - MACD below signal line''"

definition above_band_line :: string where
  "above_band_line = ''Price above upper Bollinger Band - possible mean reversion''"

definition below_band_line :: string where
  "below_band_line = ''Price below lower Bollinger Band - potential bounce opportunity''"

definition fallback_line :: string where
  "fallback_line = ''No strong signals detected - maintain current positions''"

text \<open>
  The four statuses (lines 141 to 160 of the source). The literals \<open>0.8\<close> and \<open>0.2\<close>
  denote the nearest doubles; 70, 30 and \<open>1.0\<close> are exact.
\<close>

definition rsi_status_of :: "fl \<Rightarrow> rsi_status" where
  "rsi_status_of rsi =
     (if fgt rsi (Fin 70) then Overbought
      else if flt rsi (Fin 30) then Oversold else Neutral)"

definition macd_status_of :: "fl \<Rightarrow> fl \<Rightarrow> direction" where
  "macd_status_of macd signal = (if fgt macd signal then Bullish else Bearish)"

definition bb_percent_of :: "fl \<Rightarrow> fl \<Rightarrow> fl \<Rightarrow> fl" where
  "bb_percent_of cl bbl bbu = fdiv (fsub cl bbl) (fsub bbu bbl)"

definition bb_percent :: "row \<Rightarrow> fl" where
  "bb_percent r = bb_percent_of (Close r) (BBL_20_2_0 r) (BBU_20_2_0 r)"

definition bb_status_of :: "fl \<Rightarrow> bb_status" where
  "bb_status_of p =
     (if fgt p (round64 (8 / 10)) then HighVolatility
      else if flt p (round64 (2 / 10)) then LowVolatility else Normal)"

definition trend_of :: "row \<Rightarrow> direction" where
  "trend_of r = (if fgt (Close r) (SMA_20 r) then Bullish else Bearish)"

definition signal_snapshot :: "row \<Rightarrow> snapshot" where
  "signal_snapshot r =
     \<lparr> rsiStatus = rsi_status_of (RSI_14 r),
       macdStatus = macd_status_of (MACD_12_26_9 r) (MACDs_12_26_9 r),
       bbPercent = bb_percent r,
       bollingerStatus = bb_status_of (bb_percent r),
       trendDirection = trend_of r \<rparr>"

text \<open>
  The advice section (lines 164 to 182): the list \<open>advice\<close> starts empty and each
  rule appends to it in turn.
\<close>

definition rsi_rule :: "fl \<Rightarrow> string list \<Rightarrow> string list" where
  "rsi_rule rsi advice =
     (if fgt rsi (Fin 70) then advice @ [overbought_line]
      else if flt rsi (Fin 30) then advice @ [oversold_line]
      else advice)"

definition macd_rule :: "fl \<Rightarrow> fl \<Rightarrow> string list \<Rightarrow> string list" where
  "macd_rule macd signal advice =
     (if fgt macd (fadd signal (Fin 1)) then advice @ [bullish_line]
      else if flt macd (fsub signal (Fin 1)) then advice @ [bearish_line]
      else advice)"

definition bollinger_rule :: "row \<Rightarrow> string list \<Rightarrow> string list" where
  "bollinger_rule r advice =
     (if fgt (Close r) (BBU_20_2_0 r) then advice @ [above_band_line]
      else if flt (Close r) (BBL_20_2_0 r) then advice @ [below_band_line]
      else advice)"

definition fallback_rule :: "string list \<Rightarrow> string list" where
  "fallback_rule advice = (if advice = [] then advice @ [fallback_line] else advice)"

definition trading_advice :: "row \<Rightarrow> string list" where
  "trading_advice r =
     fallback_rule
       (bollinger_rule r
          (macd_rule (MACD_12_26_9 r) (MACDs_12_26_9 r)
             (rsi_rule (RSI_14 r) [])))"

definition classify :: "row \<Rightarrow> snapshot \<times> string list" where
  "classify r = (signal_snapshot r, trading_advice r)"

text \<open>The value of \<open>advice\<close> when line 181 tests it, before the fallback step.\<close>

definition rule_lines :: "row \<Rightarrow> string list" where
  "rule_lines r =
     bollinger_rule r (macd_rule (MACD_12_26_9 r) (MACDs_12_26_9 r) (rsi_rule (RSI_14 r) []))"

section \<open>The data frame, the indicator library and the page\<close>

text \<open>
  The frame maps a column name to its column. \<open>data[name]\<close> raises KeyError on a
  name the frame does not hold, \<open>.iloc[-1]\<close> raises IndexError on an empty column.
\<close>

datatype error = KeyError string | IndexError | InputError

type_synonym frame = "string \<Rightarrow> fl list option"

type_synonym columns = "(string \<times> fl list) list"

definition getitem :: "frame \<Rightarrow> string \<Rightarrow> error + fl list" where
  "getitem df name = (case df name of None \<Rightarrow> Inl (KeyError name) | Some col \<Rightarrow> Inr col)"

definition iloc_last :: "'a list \<Rightarrow> error + 'a" where
  "iloc_last xs = (if xs = [] then Inl IndexError else Inr (last xs))"

definition read_last :: "frame \<Rightarrow> string \<Rightarrow> error + fl" where
  "read_last df name = (case getitem df name of Inl e \<Rightarrow> Inl e | Inr col \<Rightarrow> iloc_last col)"


definition append_columns :: "frame \<Rightarrow> columns \<Rightarrow> frame" where
  "append_columns df cols = fold (\<lambda>(name, col) d. d(name \<mapsto> col)) cols df"


text \<open>
  What the Streamlit calls of lines 124 to 185 put on the page, in order. A metric
  carries the values it shows; their formatting to one or two decimals and the bullet
  in front of an advice line are left out.
\<close>

datatype element =
    Subheader string
  | Pyplot "fl list" "fl list" "fl list" "fl list"
  | Columns nat
  | RsiMetric fl rsi_status
  | MacdMetric fl fl direction
  | BollingerMetric fl bb_status
  | TrendMetric direction
  | Write string


text \<open>
  The signals and the advice (lines 139 to 185). Each value is read at \<open>iloc[-1]\<close>
  where the source reads it, and each metric is written before the next column is
  read, so an exception leaves the page with what was written before it.
\<close>

definition technical_signals ::
  "frame \<Rightarrow> element list \<Rightarrow> element list \<times> (error + snapshot \<times> string list)" where
  "technical_signals data page =
     (let page1 = page @ [Subheader ''Technical Signals'', Columns 4] in
      case read_last data ''RSI_14'' of Inl e \<Rightarrow> (page1, Inl e) | Inr rsi \<Rightarrow>
      let page2 = page1 @ [RsiMetric rsi (rsi_status_of rsi)] in
      case read_last data ''MACD_12_26_9'' of Inl e \<Rightarrow> (page2, Inl e) | Inr macd \<Rightarrow>
      case read_last data ''MACDs_12_26_9'' of Inl e \<Rightarrow> (page2, Inl e) | Inr signal \<Rightarrow>
      let page3 = page2 @ [MacdMetric macd signal (macd_status_of macd signal)] in
      case read_last data ''Close'' of Inl e \<Rightarrow> (page3, Inl e) | Inr cl \<Rightarrow>
      case read_last data ''BBL_20_2.0'' of Inl e \<Rightarrow> (page3, Inl e) | Inr bbl \<Rightarrow>
      case read_last data ''BBU_20_2.0'' of Inl e \<Rightarrow> (page3, Inl e) | Inr bbu \<Rightarrow>
      let page4 = page3 @ [BollingerMetric (bb_percent_of cl bbl bbu)
                             (bb_status_of (bb_percent_of cl bbl bbu))] in
      case read_last data ''SMA_20'' of Inl e \<Rightarrow> (page4, Inl e) | Inr sma \<Rightarrow>
      let r = \<lparr> Close = cl, RSI_14 = rsi, MACD_12_26_9 = macd, MACDs_12_26_9 = signal,
                SMA_20 = sma, BBL_20_2_0 = bbl, BBU_20_2_0 = bbu \<rparr>;
          page5 = page4 @ [TrendMetric (trend_of r), Subheader ''Trading Advice''];
          advice = trading_advice r
      in (page5 @ map Write advice, Inr (signal_snapshot r, advice)))"


text \<open>The latest values of a frame that holds every column the signals read.\<close>

definition latest_row :: "frame \<Rightarrow> error + row" where
  "latest_row data =
     (case read_last data ''RSI_14'' of Inl e \<Rightarrow> Inl e | Inr rsi \<Rightarrow>
      case read_last data ''MACD_12_26_9'' of Inl e \<Rightarrow> Inl e | Inr macd \<Rightarrow>
      case read_last data ''MACDs_12_26_9'' of Inl e \<Rightarrow> Inl e | Inr signal \<Rightarrow>
      case read_last data ''Close'' of Inl e \<Rightarrow> Inl e | Inr cl \<Rightarrow>
      case read_last data ''BBL_20_2.0'' of Inl e \<Rightarrow> Inl e | Inr bbl \<Rightarrow>
      case read_last data ''BBU_20_2.0'' of Inl e \<Rightarrow> Inl e | Inr bbu \<Rightarrow>
      case read_last data ''SMA_20'' of Inl e \<Rightarrow> Inl e | Inr sma \<Rightarrow>
      Inr \<lparr> Close = cl, RSI_14 = rsi, MACD_12_26_9 = macd, MACDs_12_26_9 = signal,
            SMA_20 = sma, BBL_20_2_0 = bbl, BBU_20_2_0 = bbu \<rparr>)"

text \<open>What a complete run of the signals section writes for the latest values \<open>r\<close>.\<close>

definition rendered :: "row \<Rightarrow> element list" where
  "rendered r =
     [Subheader ''Technical Signals'', Columns 4,
      RsiMetric (RSI_14 r) (rsi_status_of (RSI_14 r)),
      MacdMetric (MACD_12_26_9 r) (MACDs_12_26_9 r)
        (macd_status_of (MACD_12_26_9 r) (MACDs_12_26_9 r)),
      BollingerMetric (bb_percent r) (bb_status_of (bb_percent r)),
      TrendMetric (trend_of r),
      Subheader ''Trading Advice''] @ map Write (trading_advice r)"

section \<open>The indicator engine of the specification\<close>

text \<open>
  The code of the library calls (\<open>df.ta.rsi\<close>, \<open>df.ta.macd\<close>, \<open>df.ta.sma\<close>,
  \<open>df.ta.bbands\<close>) is not part of the repository's sources. The definitions of this
  section follow the specification of the engine (section 4.1), over exact real
  arithmetic, with \<open>None\<close> for an undefined value and one row per bar.
\<close>

text \<open>Modelled from the spec: the bar of an \<open>OhlcSeries\<close> (section 3); the close is
  optional because the spec speaks of a missing close price.\<close>

record bar =
  timestamp :: int
  open_price :: real
  high :: real
  low :: real
  close :: "real option"
  volume :: real

text \<open>Modelled from the spec: the input check of the engine, absent from the source;
  timestamps strictly increasing and every close present, otherwise \<open>InputError\<close>.\<close>

definition well_formed :: "bar list \<Rightarrow> bool" where
  "well_formed s \<longleftrightarrow>
     sorted_wrt (<) (map timestamp s) \<and> list_all (\<lambda>b. close b \<noteq> None) s"

text \<open>Modelled from the spec: the arithmetic mean used by SMA, by the seeds of the
  moving averages and by the standard deviation.\<close>

definition mean :: "real list \<Rightarrow> real" where
  "mean xs = sum_list xs / real (length xs)"

text \<open>Modelled from the spec: the trailing \<open>n\<close> bars ending at bar \<open>i\<close> (inclusive).\<close>

definition window :: "nat \<Rightarrow> real list \<Rightarrow> nat \<Rightarrow> real list" where
  "window n xs i = take n (drop (i + 1 - n) xs)"

text \<open>Modelled from the spec: SMA(n) of the library call \<open>df.ta.sma\<close>, the mean of the
  close over the trailing \<open>n\<close> bars, undefined for the first \<open>n - 1\<close> bars.\<close>

definition sma_col :: "nat \<Rightarrow> real list \<Rightarrow> real option list" where
  "sma_col n xs =
     map (\<lambda>i. if i + 1 < n then None else Some (mean (window n xs i))) [0..<length xs]"

text \<open>Modelled from the spec: the population standard deviation of a window.\<close>

definition pstdev :: "real list \<Rightarrow> real" where
  "pstdev w = sqrt (mean (map (\<lambda>x. (x - mean w)\<^sup>2) w))"

text \<open>Modelled from the spec: the lower Bollinger band of the library call
  \<open>df.ta.bbands\<close>, \<open>mid - k * stdev\<close> over the trailing \<open>n\<close> closes.\<close>

definition bbl_col :: "nat \<Rightarrow> real \<Rightarrow> real list \<Rightarrow> real option list" where
  "bbl_col n k xs =
     map (\<lambda>i. if i + 1 < n then None
              else Some (mean (window n xs i) - k * pstdev (window n xs i)))
       [0..<length xs]"

text \<open>Modelled from the spec: the upper Bollinger band, \<open>mid + k * stdev\<close>.\<close>

definition bbu_col :: "nat \<Rightarrow> real \<Rightarrow> real list \<Rightarrow> real option list" where
  "bbu_col n k xs =
     map (\<lambda>i. if i + 1 < n then None
              else Some (mean (window n xs i) + k * pstdev (window n xs i)))
       [0..<length xs]"

text \<open>Modelled from the spec: one exponential smoothing step per bar,
  \<open>k * x + (1 - k) * previous\<close>.\<close>

fun ema_run :: "real \<Rightarrow> real \<Rightarrow> real list \<Rightarrow> real list" where
  "ema_run k prev [] = []"
| "ema_run k prev (x # xs) = (k * x + (1 - k) * prev) # ema_run k (k * x + (1 - k) * prev) xs"

text \<open>Modelled from the spec: an exponential average with multiplier \<open>k\<close>, seeded by
  the mean of the first \<open>n\<close> points and undefined before the seed.\<close>

definition smoothed :: "real \<Rightarrow> nat \<Rightarrow> real list \<Rightarrow> real option list" where
  "smoothed k n ys =
     (if length ys < n then replicate (length ys) None
      else replicate (n - 1) None @
           map Some (mean (take n ys) # ema_run k (mean (take n ys)) (drop n ys)))"

text \<open>Modelled from the spec: EMA(n) with the standard multiplier \<open>2 / (n + 1)\<close>.\<close>

definition ema_col :: "nat \<Rightarrow> real list \<Rightarrow> real option list" where
  "ema_col n xs = smoothed (2 / (real n + 1)) n xs"

text \<open>Modelled from the spec: an operation on two values is undefined as soon as one
  of them is.\<close>

fun opt2 :: "(real \<Rightarrow> real \<Rightarrow> real) \<Rightarrow> real option \<Rightarrow> real option \<Rightarrow> real option" where
  "opt2 f (Some x) (Some y) = Some (f x y)"
| "opt2 f _ _ = None"

text \<open>Modelled from the spec: the MACD line of the library call \<open>df.ta.macd\<close>,
  \<open>EMA12(close) - EMA26(close)\<close>.\<close>

definition macd_col :: "real list \<Rightarrow> real option list" where
  "macd_col xs = map2 (opt2 (\<lambda>fast slow. fast - slow)) (ema_col 12 xs) (ema_col 26 xs)"

text \<open>Modelled from the spec: the defined values of a column, in order.\<close>

fun somes :: "'a option list \<Rightarrow> 'a list" where
  "somes [] = []"
| "somes (None # xs) = somes xs"
| "somes (Some x # xs) = x # somes xs"

text \<open>Modelled from the spec: the MACD signal, \<open>EMA9\<close> of the defined MACD values,
  aligned with the bars the values belong to.\<close>

definition signal_col :: "real list \<Rightarrow> real option list" where
  "signal_col xs =
     (let m = macd_col xs; d = somes m
      in replicate (length m - length d) None @ ema_col 9 d)"

text \<open>Modelled from the spec: the close-to-close deltas.\<close>

definition deltas :: "real list \<Rightarrow> real list" where
  "deltas xs = map2 (\<lambda>prev cur. cur - prev) xs (tl xs)"

text \<open>Modelled from the spec: \<open>RSI = 100 - 100 / (1 + RS)\<close> with
  \<open>RS = avgGain / avgLoss\<close>, and 100 when \<open>avgLoss\<close> is zero; that test comes first.\<close>

definition rsi_of :: "real \<Rightarrow> real \<Rightarrow> real" where
  "rsi_of avgGain avgLoss =
     (if avgLoss = 0 then 100 else 100 - 100 / (1 + avgGain / avgLoss))"

text \<open>Modelled from the spec: RSI(14) of the library call \<open>df.ta.rsi\<close>, Wilder
  smoothing (multiplier \<open>1 / 14\<close>) of the gains and of the losses; the first bar has no
  delta, so the first 14 bars are undefined.\<close>

definition rsi_col :: "real list \<Rightarrow> real option list" where
  "rsi_col xs =
     (case xs of [] \<Rightarrow> []
      | _ # _ \<Rightarrow>
          None # map2 (opt2 rsi_of)
                   (smoothed (1 / 14) 14 (map (\<lambda>d. max d 0) (deltas xs)))
                   (smoothed (1 / 14) 14 (map (\<lambda>d. max (- d) 0) (deltas xs))))"

text \<open>Modelled from the spec: an undefined indicator value is NaN in the frame.\<close>

fun to_fl :: "real option \<Rightarrow> fl" where
  "to_fl None = NaN"
| "to_fl (Some x) = Fin x"

text \<open>Modelled from the spec: the \<open>IndicatorFrame\<close>, one row per bar, each column
  aligned with the closes.\<close>

definition indicator_rows :: "real list \<Rightarrow> row list" where
  "indicator_rows xs =
     map (\<lambda>i. \<lparr> Close = Fin (xs ! i),
                RSI_14 = to_fl (rsi_col xs ! i),
                MACD_12_26_9 = to_fl (macd_col xs ! i),
                MACDs_12_26_9 = to_fl (signal_col xs ! i),
                SMA_20 = to_fl (sma_col 20 xs ! i),
                BBL_20_2_0 = to_fl (bbl_col 20 2 xs ! i),
                BBU_20_2_0 = to_fl (bbu_col 20 2 xs ! i) \<rparr>)
       [0..<length xs]"

text \<open>Modelled from the spec: \<open>computeIndicators\<close>, the engine behind
  \<open>calculate_technicals\<close>; a malformed series is an \<open>InputError\<close>, a short one is not.\<close>

definition computeIndicators :: "bar list \<Rightarrow> error + row list" where
  "computeIndicators s =
     (if well_formed s then Inr (indicator_rows (map (\<lambda>b. the (close b)) s))
      else Inl InputError)"

section \<open>Sample inputs\<close>

text \<open>A series with the given closes, one bar per time unit.\<close>

definition series_of :: "real list \<Rightarrow> bar list" where
  "series_of cs =
     map (\<lambda>i. \<lparr> timestamp = int i, open_price = cs ! i, high = cs ! i, low = cs ! i,
                close = Some (cs ! i), volume = 0 \<rparr>) [0..<length cs]"

definition flat_series :: "nat \<Rightarrow> real \<Rightarrow> bar list" where
  "flat_series n c = series_of (replicate n c)"

text \<open>Latest values on which no advice rule fires.\<close>

definition quiet_row :: row where
  "quiet_row =
     \<lparr> Close = Fin 100, RSI_14 = Fin 50, MACD_12_26_9 = Fin 2, MACDs_12_26_9 = Fin 2,
       SMA_20 = Fin 100, BBL_20_2_0 = Fin 90, BBU_20_2_0 = Fin 105 \<rparr>"


text \<open>A frame with the columns the signals read, one entry per given row.\<close>

definition frame_of_rows :: "row list \<Rightarrow> frame" where
  "frame_of_rows rs =
     [''Close'' \<mapsto> map Close rs, ''RSI_14'' \<mapsto> map RSI_14 rs,
      ''MACD_12_26_9'' \<mapsto> map MACD_12_26_9 rs, ''MACDs_12_26_9'' \<mapsto> map MACDs_12_26_9 rs,
      ''SMA_20'' \<mapsto> map SMA_20 rs, ''BBL_20_2.0'' \<mapsto> map BBL_20_2_0 rs,
      ''BBU_20_2.0'' \<mapsto> map BBU_20_2_0 rs]"





section \<open>Facts about rounding\<close>

lemma rne_of_int [simp]: "rne (of_int k) = k"
  by (simp add: rne_def)

lemma rne_lower: "a - 1 / 2 \<le> of_int (rne a)"
  unfolding rne_def by (auto; linarith)

lemma rne_upper: "of_int (rne a) \<le> a + 1 / 2"
  unfolding rne_def by (auto; linarith)

lemma rne_mono: "a \<le> b \<Longrightarrow> rne a \<le> rne b"
proof (rule ccontr)
  assume ab: "a \<le> b" and "\<not> rne a \<le> rne b"
  then have 1: "rne b + 1 \<le> rne a" by simp
  then have "(of_int (rne b) :: real) + 1 \<le> of_int (rne a)"
    by (metis of_int_1 of_int_add of_int_le_iff)
  with rne_lower [of b] rne_upper [of a] ab
  have eq: "a = b" "of_int (rne a) = a + 1 / 2" "of_int (rne b) = b - 1 / 2"
    by linarith+
  with \<open>\<not> rne a \<le> rne b\<close> show False by simp
qed


lemma expo_from_lower: "e \<le> expo_from k e a"
proof (induction k arbitrary: e)
  case 0
  show ?case by simp
next
  case (Suc k)
  from Suc [of "e + 1"] have "e \<le> expo_from k (e + 1) a" by simp
  then show ?case by simp
qed

lemma expo_from_upper: "expo_from k e a \<le> e + int k"
proof (induction k arbitrary: e)
  case 0
  show ?case by simp
next
  case (Suc k)
  from Suc [of "e + 1"] show ?case by auto
qed

lemma expo_from_below: "e < expo_from k e a \<Longrightarrow> 2 powi expo_from k e a \<le> a"
proof (induction k arbitrary: e)
  case 0
  then show ?case by simp
next
  case (Suc k)
  show ?case
  proof (cases "2 powi (e + 1) \<le> a")
    case True
    show ?thesis
    proof (cases "e + 1 < expo_from k (e + 1) a")
      case True
      with Suc.IH [of "e + 1"] \<open>2 powi (e + 1) \<le> a\<close> show ?thesis by simp
    next
      case False
      with expo_from_lower [of "e + 1" k a] have "expo_from k (e + 1) a = e + 1" by simp
      with True show ?thesis by simp
    qed
  next
    case False
    with Suc.prems show ?thesis by simp
  qed
qed

lemma expo_from_above:
  "expo_from k e a < e + int k \<Longrightarrow> a < 2 powi (expo_from k e a + 1)"
proof (induction k arbitrary: e)
  case 0
  then show ?case by simp
next
  case (Suc k)
  show ?case
  proof (cases "2 powi (e + 1) \<le> a")
    case True
    with Suc.prems have "expo_from k (e + 1) a < e + 1 + int k" by simp
    from Suc.IH [OF this] True show ?thesis by simp
  next
    case False
    then show ?thesis by simp
  qed
qed

lemma expo_from_mono: "a \<le> b \<Longrightarrow> expo_from k e a \<le> expo_from k e b"
proof (induction k arbitrary: e)
  case 0
  show ?case by simp
next
  case (Suc k)
  show ?case
  proof (cases "2 powi (e + 1) \<le> a")
    case True
    with Suc.prems have "2 powi (e + 1) \<le> b" by simp
    with True Suc.IH [OF Suc.prems, of "e + 1"] show ?thesis by simp
  next
    case False
    with expo_from_lower [of "e + 1" k b] show ?thesis by auto
  qed
qed

lemma expo_range: "- 1022 \<le> expo a" "expo a \<le> 1023"
  using expo_from_lower [of "- 1022" 2045 a] expo_from_upper [of 2045 "- 1022" a]
  by (simp_all add: expo_def)

lemma expo_below: "- 1022 < expo a \<Longrightarrow> 2 powi expo a \<le> a"
  unfolding expo_def by (rule expo_from_below)

lemma expo_above: "expo a < 1023 \<Longrightarrow> a < 2 powi (expo a + 1)"
  unfolding expo_def using expo_from_above [of 2045 "- 1022" a] by simp

lemma expo_mono: "a \<le> b \<Longrightarrow> expo a \<le> expo b"
  unfolding expo_def by (rule expo_from_mono)

lemma expo_unique:
  assumes "- 1022 \<le> e" and "e \<le> 1023" and "2 powi e \<le> a" and "a < 2 powi (e + 1)"
  shows "expo a = e"
proof (rule antisym)
  show "expo a \<le> e"
  proof (rule ccontr)
    assume "\<not> expo a \<le> e"
    then have lt: "e + 1 \<le> expo a" by simp
    with assms(1) have "- 1022 < expo a" by simp
    then have "2 powi expo a \<le> a" by (rule expo_below)
    moreover have "(2::real) powi (e + 1) \<le> 2 powi expo a"
      using lt by (intro power_int_increasing) simp_all
    ultimately show False using assms(4) by simp
  qed
  show "e \<le> expo a"
  proof (rule ccontr)
    assume "\<not> e \<le> expo a"
    then have lt: "expo a + 1 \<le> e" by simp
    with assms(2) have "expo a < 1023" by simp
    then have "a < 2 powi (expo a + 1)" by (rule expo_above)
    moreover have "(2::real) powi (expo a + 1) \<le> 2 powi e"
      using lt by (intro power_int_increasing) simp_all
    ultimately show False using assms(3) by simp
  qed
qed

lemma pow2_split: "(2::real) powi (e + 1) = 2 ^ 53 * 2 powi (e - 52)"
proof -
  have eq: "53 + (e - 52) = e + 1" by simp
  have "(2::real) powi (53 + (e - 52)) = 2 powi 53 * 2 powi (e - 52)"
    by (subst power_int_add) simp_all
  then show ?thesis unfolding eq by simp
qed

lemma pow2_split': "(2::real) powi e = 2 ^ 52 * 2 powi (e - 52)"
proof -
  have eq: "52 + (e - 52) = e" by simp
  have "(2::real) powi (52 + (e - 52)) = 2 powi 52 * 2 powi (e - 52)"
    by (subst power_int_add) simp_all
  then show ?thesis unfolding eq by simp
qed

lemma round_mag_upper:
  assumes "expo a < 1023"
  shows "round_mag a \<le> 2 powi (expo a + 1)"
proof -
  let ?u = "(2::real) powi (expo a - 52)"
  have u: "0 < ?u" by simp
  have "a < 2 ^ 53 * ?u"
    using expo_above [OF assms] by (simp add: pow2_split)
  then have "a / ?u \<le> 2 ^ 53"
    using u by (simp add: field_simps)
  then have "rne (a / ?u) \<le> rne (of_int (2 ^ 53))"
    by (intro rne_mono) simp
  then have "(of_int (rne (a / ?u)) :: real) \<le> 2 ^ 53"
    by (simp del: rne_of_int add: rne_of_int [of "2 ^ 53", simplified] flip: of_int_le_iff)
  then have "of_int (rne (a / ?u)) * ?u \<le> 2 ^ 53 * ?u"
    using u by (intro mult_right_mono) simp_all
  then show ?thesis
    by (simp add: round_mag_def pow2_split)
qed

lemma round_mag_lower:
  assumes "- 1022 < expo a"
  shows "2 powi expo a \<le> round_mag a"
proof -
  let ?u = "(2::real) powi (expo a - 52)"
  have u: "0 < ?u" by simp
  have "2 ^ 52 * ?u \<le> a"
    using expo_below [OF assms] by (simp add: pow2_split' [of "expo a"])
  then have "2 ^ 52 \<le> a / ?u"
    using u by (simp add: field_simps)
  then have "rne (of_int (2 ^ 52)) \<le> rne (a / ?u)"
    by (intro rne_mono) simp
  then have "(2 ^ 52 :: real) \<le> of_int (rne (a / ?u))"
    by (simp del: rne_of_int add: rne_of_int [of "2 ^ 52", simplified] flip: of_int_le_iff)
  then have "2 ^ 52 * ?u \<le> of_int (rne (a / ?u)) * ?u"
    using u by (intro mult_right_mono) simp_all
  then show ?thesis
    by (simp add: round_mag_def pow2_split' [of "expo a"])
qed

lemma round_mag_mono:
  assumes "a \<le> b"
  shows "round_mag a \<le> round_mag b"
proof (cases "expo a = expo b")
  case True
  let ?u = "(2::real) powi (expo b - 52)"
  have u: "0 < ?u" by simp
  have "a / ?u \<le> b / ?u"
    using assms u by (simp add: divide_right_mono)
  then have "(of_int (rne (a / ?u)) :: real) \<le> of_int (rne (b / ?u))"
    using rne_mono by simp
  then show ?thesis
    using u by (simp add: round_mag_def True mult_right_mono)
next
  case False
  with expo_mono [OF assms] have lt: "expo a + 1 \<le> expo b" by simp
  with expo_range [of b] expo_range [of a] have "expo a < 1023" "- 1022 < expo b"
    by simp_all
  then have "round_mag a \<le> 2 powi (expo a + 1)" "2 powi expo b \<le> round_mag b"
    by (simp_all add: round_mag_upper round_mag_lower)
  moreover have "(2::real) powi (expo a + 1) \<le> 2 powi expo b"
    using lt by (intro power_int_increasing) simp_all
  ultimately show ?thesis by simp
qed

lemma round_mag_nonneg: "0 \<le> a \<Longrightarrow> 0 \<le> round_mag a"
proof -
  assume "0 \<le> a"
  then have "0 \<le> a / 2 powi (expo a - 52)" by simp
  then have "rne 0 \<le> rne (a / 2 powi (expo a - 52))" by (rule rne_mono)
  then show ?thesis
    by (simp add: round_mag_def rne_of_int [of 0, simplified])
qed


lemma round_mag_exact:
  assumes "2 ^ 52 \<le> n" and "n < 2 ^ 53" and "- 1074 \<le> q" and "q \<le> 971"
  shows "round_mag (of_int n * 2 powi q) = of_int n * 2 powi q"
proof -
  let ?a = "(of_int n :: real) * 2 powi q"
  have p: "(0::real) < 2 powi q" by simp
  have n: "(2 ^ 52 :: real) \<le> of_int n" "(of_int n :: real) < 2 ^ 53"
    using assms(1,2) by (simp_all flip: of_int_le_iff of_int_less_iff)
  have e52: "(2::real) powi (q + 52) = 2 ^ 52 * 2 powi q"
    by (subst power_int_add) (simp_all add: mult.commute)
  have e53: "(2::real) powi (q + 52 + 1) = 2 ^ 53 * 2 powi q"
  proof -
    have "q + 52 + 1 = q + 53" by simp
    then show ?thesis
      by (simp only:) (subst power_int_add, simp_all add: mult.commute)
  qed
  have lo: "2 powi (q + 52) \<le> ?a"
    unfolding e52 using n(1) p by simp
  have hi: "?a < 2 powi (q + 52 + 1)"
    unfolding e53 using n(2) p by simp
  have "expo ?a = q + 52"
    using assms(3,4) lo hi by (intro expo_unique) simp_all
  then show ?thesis
    by (simp add: round_mag_def)
qed

lemma round64_exact:
  assumes "2 ^ 52 \<le> n" and "n < 2 ^ 53" and "- 1074 \<le> q" and "q \<le> 971"
  shows "round64 (of_int n * 2 powi q) = Fin (of_int n * 2 powi q)"
proof -
  let ?a = "(of_int n :: real) * 2 powi q"
  have n: "(2 ^ 52 :: real) \<le> of_int n" "(of_int n :: real) < 2 ^ 53"
    using assms(1,2) by (simp_all flip: of_int_le_iff of_int_less_iff)
  then have pos: "0 < ?a" by (simp add: zero_less_mult_iff)
  have "(2::real) powi q \<le> 2 powi 971"
    using assms(4) by (intro power_int_increasing) simp_all
  then have "?a \<le> of_int n * 2 powi 971"
    using n(1) by (intro mult_left_mono) simp_all
  also have "\<dots> < 2 ^ 53 * 2 powi 971"
    using n(2) by (intro mult_strict_right_mono) simp_all
  also have "\<dots> = 2 ^ 1024"
    by (simp flip: power_add)
  finally have "?a < 2 ^ 1024" .
  with pos show ?thesis
    by (simp add: round64_def round_mag_exact [OF assms] abs_of_pos)
qed

lemma round64_fixed_mag:
  assumes "round64 m = Fin m" and "m \<noteq> 0"
  shows "round_mag \<bar>m\<bar> = \<bar>m\<bar>" and "round_mag \<bar>m\<bar> < 2 ^ 1024"
  using assms
  by (auto simp: round64_def signed_inf_def signed_zero_def split: if_splits)

lemma round64_not_below:
  assumes "round64 m = Fin m" and "m \<le> x"
  shows "\<not> flt (round64 x) (Fin m)"
proof -
  consider "x = 0" | "0 < x" | "x < 0" by linarith
  then show ?thesis
  proof cases
    case 1
    with assms(2) show ?thesis by (simp add: round64_def)
  next
    case 2
    have "m \<le> round_mag \<bar>x\<bar>"
    proof (cases "0 < m")
      case True
      with assms have "round_mag \<bar>m\<bar> = \<bar>m\<bar>" by (intro round64_fixed_mag) simp_all
      moreover have "round_mag \<bar>m\<bar> \<le> round_mag \<bar>x\<bar>"
        using True assms(2) by (intro round_mag_mono) simp
      ultimately show ?thesis using True by simp
    next
      case False
      with round_mag_nonneg [of "\<bar>x\<bar>"] show ?thesis by simp
    qed
    with 2 show ?thesis
      by (simp add: round64_def signed_inf_def signed_zero_def)
  next
    case 3
    with assms(2) have m: "m < 0" "m \<noteq> 0" by simp_all
    from assms(1) m(2) have fm: "round_mag \<bar>m\<bar> = \<bar>m\<bar>" "round_mag \<bar>m\<bar> < 2 ^ 1024"
      by (rule round64_fixed_mag)+
    have "round_mag \<bar>x\<bar> \<le> round_mag \<bar>m\<bar>"
      using 3 assms(2) by (intro round_mag_mono) simp
    with fm m have "round_mag \<bar>x\<bar> \<le> - m" "round_mag \<bar>x\<bar> < 2 ^ 1024" by simp_all
    with 3 m show ?thesis
      by (simp add: round64_def signed_inf_def signed_zero_def)
  qed
qed

lemma round64_not_above:
  assumes "round64 m = Fin m" and "x \<le> m"
  shows "\<not> flt (Fin m) (round64 x)"
proof -
  consider "x = 0" | "0 < x" | "x < 0" by linarith
  then show ?thesis
  proof cases
    case 1
    with assms(2) show ?thesis by (simp add: round64_def)
  next
    case 2
    with assms(2) have m: "0 < m" "m \<noteq> 0" by simp_all
    from assms(1) m(2) have fm: "round_mag \<bar>m\<bar> = \<bar>m\<bar>" "round_mag \<bar>m\<bar> < 2 ^ 1024"
      by (rule round64_fixed_mag)+
    have "round_mag \<bar>x\<bar> \<le> round_mag \<bar>m\<bar>"
      using 2 assms(2) by (intro round_mag_mono) simp
    with fm m have "round_mag \<bar>x\<bar> \<le> m" "round_mag \<bar>x\<bar> < 2 ^ 1024" by simp_all
    with 2 m show ?thesis
      by (simp add: round64_def signed_inf_def signed_zero_def)
  next
    case 3
    have "- round_mag \<bar>x\<bar> \<le> m"
    proof (cases "m < 0")
      case True
      with assms have "round_mag \<bar>m\<bar> = \<bar>m\<bar>" by (intro round64_fixed_mag) simp_all
      moreover have "round_mag \<bar>m\<bar> \<le> round_mag \<bar>x\<bar>"
        using True assms(2) by (intro round_mag_mono) simp
      ultimately show ?thesis using True by simp
    next
      case False
      with round_mag_nonneg [of "\<bar>x\<bar>"] show ?thesis by simp
    qed
    with 3 show ?thesis
      by (auto simp: round64_def signed_inf_def signed_zero_def)
  qed
qed

lemma round64_3: "round64 3 = Fin 3"
  using round64_exact [of "3 * 2 ^ 51" "- 51"] by simp

lemma round64_1_1: "round64 (1 + 3602879701896397 / 2 ^ 55) = Fin (4953959590107546 / 2 ^ 52)"
proof -
  define a :: real where "a = 1 + 3602879701896397 / 2 ^ 55"
  have pos: "0 < a" by (simp add: a_def)
  have e: "expo a = 0"
    unfolding a_def by (rule expo_unique) simp_all
  have q: "a / 2 powi (0 - 52) = 4953959590107545 + 5 / 8"
    by (simp add: a_def)
  have r: "rne (4953959590107545 + 5 / 8) = 4953959590107546"
    by (simp add: rne_def)
  have "round_mag a = of_int 4953959590107546 * 2 powi (0 - 52)"
    by (simp only: round_mag_def e q r)
  then have rm: "round_mag a = 4953959590107546 / 2 ^ 52"
    by simp
  have "round64 a = Fin (4953959590107546 / 2 ^ 52)"
    using pos by (simp add: round64_def abs_of_pos rm)
  then show ?thesis
    by (simp only: a_def)
qed

lemma round64_1: "round64 1 = Fin 1"
  using round64_exact [of "2 ^ 52" "- 52"] by simp

lemma flt_NaN_right [simp]: "flt a NaN = False"
  by (cases a) simp_all

section \<open>Facts about the advice rules\<close>

lemma lines_distinct:
  "distinct [overbought_line, oversold_line, bullish_line, bearish_line,
             above_band_line, below_band_line, fallback_line]"
  by (simp add: overbought_line_def oversold_line_def bullish_line_def bearish_line_def
      above_band_line_def below_band_line_def fallback_line_def)

lemma line_neq:
  "overbought_line \<noteq> oversold_line"
  "overbought_line \<noteq> bullish_line"
  "overbought_line \<noteq> bearish_line"
  "overbought_line \<noteq> above_band_line"
  "overbought_line \<noteq> below_band_line"
  "overbought_line \<noteq> fallback_line"
  "oversold_line \<noteq> overbought_line"
  "oversold_line \<noteq> bullish_line"
  "oversold_line \<noteq> bearish_line"
  "oversold_line \<noteq> above_band_line"
  "oversold_line \<noteq> below_band_line"
  "oversold_line \<noteq> fallback_line"
  "bullish_line \<noteq> overbought_line"
  "bullish_line \<noteq> oversold_line"
  "bullish_line \<noteq> bearish_line"
  "bullish_line \<noteq> above_band_line"
  "bullish_line \<noteq> below_band_line"
  "bullish_line \<noteq> fallback_line"
  "bearish_line \<noteq> overbought_line"
  "bearish_line \<noteq> oversold_line"
  "bearish_line \<noteq> bullish_line"
  "bearish_line \<noteq> above_band_line"
  "bearish_line \<noteq> below_band_line"
  "bearish_line \<noteq> fallback_line"
  "above_band_line \<noteq> overbought_line"
  "above_band_line \<noteq> oversold_line"
  "above_band_line \<noteq> bullish_line"
  "above_band_line \<noteq> bearish_line"
  "above_band_line \<noteq> below_band_line"
  "above_band_line \<noteq> fallback_line"
  "below_band_line \<noteq> overbought_line"
  "below_band_line \<noteq> oversold_line"
  "below_band_line \<noteq> bullish_line"
  "below_band_line \<noteq> bearish_line"
  "below_band_line \<noteq> above_band_line"
  "below_band_line \<noteq> fallback_line"
  "fallback_line \<noteq> overbought_line"
  "fallback_line \<noteq> oversold_line"
  "fallback_line \<noteq> bullish_line"
  "fallback_line \<noteq> bearish_line"
  "fallback_line \<noteq> above_band_line"
  "fallback_line \<noteq> below_band_line"
  using lines_distinct by auto

lemma rule_lines_eq:
  "rule_lines r =
     (if fgt (RSI_14 r) (Fin 70) then [overbought_line]
      else if flt (RSI_14 r) (Fin 30) then [oversold_line] else []) @
     (if fgt (MACD_12_26_9 r) (fadd (MACDs_12_26_9 r) (Fin 1)) then [bullish_line]
      else if flt (MACD_12_26_9 r) (fsub (MACDs_12_26_9 r) (Fin 1)) then [bearish_line]
      else []) @
     (if fgt (Close r) (BBU_20_2_0 r) then [above_band_line]
      else if flt (Close r) (BBL_20_2_0 r) then [below_band_line] else [])"
  by (simp add: rule_lines_def rsi_rule_def macd_rule_def bollinger_rule_def)

lemma trading_advice_eq:
  "trading_advice r = (if rule_lines r = [] then [fallback_line] else rule_lines r)"
  by (simp add: trading_advice_def rule_lines_def fallback_rule_def)

lemma mem_overbought:
  "overbought_line \<in> set (trading_advice r) \<longleftrightarrow> fgt (RSI_14 r) (Fin 70)"
  by (simp add: trading_advice_eq rule_lines_eq line_neq)

lemma mem_oversold:
  "oversold_line \<in> set (trading_advice r) \<longleftrightarrow>
     \<not> fgt (RSI_14 r) (Fin 70) \<and> flt (RSI_14 r) (Fin 30)"
  by (simp add: trading_advice_eq rule_lines_eq line_neq)


lemma mem_bullish:
  "bullish_line \<in> set (trading_advice r) \<longleftrightarrow>
     fgt (MACD_12_26_9 r) (fadd (MACDs_12_26_9 r) (Fin 1))"
  by (simp add: trading_advice_eq rule_lines_eq line_neq)

lemma mem_bearish:
  "bearish_line \<in> set (trading_advice r) \<longleftrightarrow>
     \<not> fgt (MACD_12_26_9 r) (fadd (MACDs_12_26_9 r) (Fin 1)) \<and>
     flt (MACD_12_26_9 r) (fsub (MACDs_12_26_9 r) (Fin 1))"
  by (simp add: trading_advice_eq rule_lines_eq line_neq)

lemma mem_above_band:
  "above_band_line \<in> set (trading_advice r) \<longleftrightarrow> fgt (Close r) (BBU_20_2_0 r)"
  by (simp add: trading_advice_eq rule_lines_eq line_neq)

lemma mem_below_band:
  "below_band_line \<in> set (trading_advice r) \<longleftrightarrow>
     \<not> fgt (Close r) (BBU_20_2_0 r) \<and> flt (Close r) (BBL_20_2_0 r)"
  by (simp add: trading_advice_eq rule_lines_eq line_neq)

lemma fallback_notin_rule_lines: "fallback_line \<notin> set (rule_lines r)"
  by (simp add: rule_lines_eq line_neq)

lemma rule_lines_empty_iff:
  "rule_lines r = [] \<longleftrightarrow>
     \<not> (fgt (RSI_14 r) (Fin 70) \<or> flt (RSI_14 r) (Fin 30) \<or>
        fgt (MACD_12_26_9 r) (fadd (MACDs_12_26_9 r) (Fin 1)) \<or>
        flt (MACD_12_26_9 r) (fsub (MACDs_12_26_9 r) (Fin 1)) \<or>
        fgt (Close r) (BBU_20_2_0 r) \<or> flt (Close r) (BBL_20_2_0 r))"
  by (simp add: rule_lines_eq)

lemma rule_lines_length: "length (rule_lines r) \<le> 3"
  by (simp add: rule_lines_eq)

lemma advice_length: "1 \<le> length (trading_advice r) \<and> length (trading_advice r) \<le> 3"
  using rule_lines_length [of r] by (cases "rule_lines r") (simp_all add: trading_advice_eq)

lemma rsi_lines_once:
  "length (filter (\<lambda>l. l = overbought_line \<or> l = oversold_line) (trading_advice r)) \<le> 1"
  by (simp add: trading_advice_eq rule_lines_eq line_neq)

lemma macd_lines_once:
  "length (filter (\<lambda>l. l = bullish_line \<or> l = bearish_line) (trading_advice r)) \<le> 1"
  by (simp add: trading_advice_eq rule_lines_eq line_neq)

lemma band_lines_once:
  "length (filter (\<lambda>l. l = above_band_line \<or> l = below_band_line) (trading_advice r)) \<le> 1"
  by (simp add: trading_advice_eq rule_lines_eq line_neq)

lemma fallback_alone:
  "fallback_line \<in> set (trading_advice r) \<Longrightarrow> trading_advice r = [fallback_line]"
  using fallback_notin_rule_lines [of r] by (simp add: trading_advice_eq split: if_splits)

section \<open>Facts about the engine of the specification\<close>


lemma length_ema_run [simp]: "length (ema_run k p xs) = length xs"
  by (induction xs arbitrary: p) simp_all

lemma length_smoothed [simp]: "0 < n \<Longrightarrow> length (smoothed k n ys) = length ys"
  by (auto simp: smoothed_def)

lemma length_ema_col [simp]: "0 < n \<Longrightarrow> length (ema_col n xs) = length xs"
  by (simp add: ema_col_def)

lemma length_macd_col [simp]: "length (macd_col xs) = length xs"
  by (simp add: macd_col_def)

lemma length_sma_col [simp]: "length (sma_col n xs) = length xs"
  by (simp add: sma_col_def)

lemma length_bbl_col [simp]: "length (bbl_col n k xs) = length xs"
  by (simp add: bbl_col_def)

lemma length_bbu_col [simp]: "length (bbu_col n k xs) = length xs"
  by (simp add: bbu_col_def)

lemma length_deltas [simp]: "length (deltas xs) = length xs - 1"
  by (simp add: deltas_def)

lemma length_rsi_col [simp]: "length (rsi_col xs) = length xs"
  by (cases xs) (simp_all add: rsi_col_def)

lemma length_somes_le: "length (somes xs) \<le> length xs"
  by (induction xs rule: somes.induct) simp_all

lemma length_signal_col [simp]: "length (signal_col xs) = length xs"
  using length_somes_le [of "macd_col xs"] by (simp add: signal_col_def Let_def)

lemma length_indicator_rows [simp]: "length (indicator_rows xs) = length xs"
  by (simp add: indicator_rows_def)

lemma smoothed_early: "i < length ys \<Longrightarrow> i + 1 < n \<Longrightarrow> smoothed k n ys ! i = None"
  by (auto simp: smoothed_def nth_append)

lemma smoothed_shape:
  "0 < n \<Longrightarrow> \<exists>vs. smoothed k n ys = replicate (min (n - 1) (length ys)) None @ map Some vs"
proof (cases "length ys < n")
  case True
  assume "0 < n"
  with True have "smoothed k n ys = replicate (min (n - 1) (length ys)) None @ map Some []"
    by (auto simp: smoothed_def min_def)
  then show ?thesis by blast
next
  case False
  then have "min (n - 1) (length ys) = n - 1" by simp
  with False show ?thesis
    unfolding smoothed_def by (metis (full_types))
qed

lemma somes_pad [simp]: "somes (replicate n None @ map Some vs) = vs"
proof (induction n)
  case 0
  show ?case by (induction vs) simp_all
next
  case (Suc n)
  then show ?case by simp
qed


lemma macd_col_shape:
  "\<exists>vs. macd_col xs = replicate (min 25 (length xs)) None @ map Some vs"
proof (cases "length xs < 26")
  case True
  then have "ema_col 26 xs = replicate (length xs) None"
    by (simp add: ema_col_def smoothed_def)
  then have "macd_col xs = replicate (length xs) None"
    by (auto simp: macd_col_def list_eq_iff_nth_eq)
  with True have "macd_col xs = replicate (min 25 (length xs)) None @ map Some []"
    by (simp add: min_def)
  then show ?thesis by blast
next
  case False
  define f where "f = ema_run (2 / (real (12::nat) + 1)) (mean (take 12 xs)) (drop 12 xs)"
  define g where "g = ema_run (2 / (real (26::nat) + 1)) (mean (take 26 xs)) (drop 26 xs)"
  define fs where "fs = mean (take 12 xs) # f"
  define gs where "gs = mean (take 26 xs) # g"
  have e12: "ema_col 12 xs = replicate 11 None @ map Some fs"
    using False by (simp add: ema_col_def smoothed_def f_def fs_def)
  have e26: "ema_col 26 xs = replicate 25 None @ map Some gs"
    using False by (simp add: ema_col_def smoothed_def g_def gs_def)
  have lf: "length fs = length xs - 11" and lg: "length gs = length xs - 25"
    using False by (simp_all add: fs_def gs_def f_def g_def)
  have "macd_col xs = replicate 25 None @ map Some (map2 (\<lambda>a b. a - b) (drop 14 fs) gs)"
  proof (rule nth_equalityI)
    show "length (macd_col xs) =
        length (replicate 25 None @ map Some (map2 (\<lambda>a b. a - b) (drop 14 fs) gs))"
      using False lf lg by simp
  next
    fix i assume "i < length (macd_col xs)"
    then have i: "i < length xs" by simp
    show "macd_col xs ! i =
        (replicate 25 None @ map Some (map2 (\<lambda>a b. a - b) (drop 14 fs) gs)) ! i"
    proof (cases "i < 25")
      case True
      then show ?thesis
        using i False by (simp add: macd_col_def e12 e26 lf lg nth_append)
    next
      case False
      then show ?thesis
        using i \<open>\<not> length xs < 26\<close> by (simp add: macd_col_def e12 e26 lf lg nth_append)
    qed
  qed
  moreover have "min 25 (length xs) = 25" using False by simp
  ultimately show ?thesis by metis
qed

lemma macd_col_early: "i < length xs \<Longrightarrow> i < 25 \<Longrightarrow> macd_col xs ! i = None"
proof -
  assume i: "i < length xs" "i < 25"
  obtain vs where "macd_col xs = replicate (min 25 (length xs)) None @ map Some vs"
    using macd_col_shape by blast
  with i show ?thesis by (simp add: nth_append)
qed

lemma signal_col_early:
  assumes "i < length xs" and "i < 33"
  shows "signal_col xs ! i = None"
proof -
  obtain vs where vs: "macd_col xs = replicate (min 25 (length xs)) None @ map Some vs"
    using macd_col_shape by blast
  have "length (macd_col xs) = length xs" by simp
  then have lv: "min 25 (length xs) + length vs = length xs"
    unfolding vs by simp
  have sc: "signal_col xs = replicate (min 25 (length xs)) None @ ema_col 9 vs"
    using lv by (simp add: signal_col_def Let_def vs)
  show ?thesis
  proof (cases "i < 25")
    case True
    with assms show ?thesis by (simp add: sc nth_append)
  next
    case False
    with assms lv have "i - 25 < length vs" "i - 25 + 1 < 9" "min 25 (length xs) = 25"
      by auto
    then show ?thesis
      using False by (simp add: sc nth_append ema_col_def smoothed_early)
  qed
qed

lemma rsi_col_early:
  assumes "i < length xs" and "i < 14"
  shows "rsi_col xs ! i = None"
proof (cases xs)
  case Nil
  with assms show ?thesis by simp
next
  case (Cons x xs')
  show ?thesis
  proof (cases i)
    case 0
    then show ?thesis by (simp add: rsi_col_def Cons)
  next
    case (Suc j)
    with assms Cons have j: "j < length (deltas xs)" "j + 1 < 14"
      by simp_all
    then have "smoothed (1 / 14) 14 (map (\<lambda>d. max d 0) (deltas xs)) ! j = None"
      by (simp add: smoothed_early)
    with j show ?thesis
      by (simp add: rsi_col_def Cons Suc)
  qed
qed

lemma sma_col_early: "i < length xs \<Longrightarrow> i + 1 < n \<Longrightarrow> sma_col n xs ! i = None"
  by (simp add: sma_col_def)

lemma bbl_col_early: "i < length xs \<Longrightarrow> i + 1 < n \<Longrightarrow> bbl_col n k xs ! i = None"
  by (simp add: bbl_col_def)

lemma bbu_col_early: "i < length xs \<Longrightarrow> i + 1 < n \<Longrightarrow> bbu_col n k xs ! i = None"
  by (simp add: bbu_col_def)

lemma indicator_rows_nth:
  "i < length xs \<Longrightarrow>
   indicator_rows xs ! i =
     \<lparr> Close = Fin (xs ! i),
       RSI_14 = to_fl (rsi_col xs ! i),
       MACD_12_26_9 = to_fl (macd_col xs ! i),
       MACDs_12_26_9 = to_fl (signal_col xs ! i),
       SMA_20 = to_fl (sma_col 20 xs ! i),
       BBL_20_2_0 = to_fl (bbl_col 20 2 xs ! i),
       BBU_20_2_0 = to_fl (bbu_col 20 2 xs ! i) \<rparr>"
  by (simp add: indicator_rows_def)


lemma well_formed_series_of: "well_formed (series_of cs)"
proof -
  have "map timestamp (series_of cs) = map int [0..<length cs]"
    by (simp add: series_of_def)
  then have "sorted_wrt (<) (map timestamp (series_of cs))"
    by (simp add: sorted_wrt_map)
  moreover have "list_all (\<lambda>b. close b \<noteq> None) (series_of cs)"
    by (simp add: series_of_def list_all_iff)
  ultimately show ?thesis
    by (simp add: well_formed_def)
qed

lemma closes_series_of: "map (\<lambda>b. the (close b)) (series_of cs) = cs"
  by (rule nth_equalityI) (simp_all add: series_of_def)

lemma computeIndicators_series_of: "computeIndicators (series_of cs) = Inr (indicator_rows cs)"
  by (simp add: computeIndicators_def well_formed_series_of closes_series_of)

text \<open>In the engine of the specification coinciding bands put the close on the band.\<close>

lemma pstdev_zero_all_equal:
  assumes "pstdev w = 0" and "x \<in> set w"
  shows "x = mean w"
proof -
  let ?sq = "map (\<lambda>x. (x - mean w)\<^sup>2) w"
  have ne: "w \<noteq> []" using assms(2) by auto
  from assms(1) have "mean ?sq = 0"
    by (simp add: pstdev_def)
  with ne have "sum_list ?sq = 0"
    by (simp add: mean_def)
  moreover have "0 \<le> y" if "y \<in> set ?sq" for y
    using that by auto
  ultimately have z: "\<forall>y \<in> set ?sq. y = 0"
    using sum_list_nonneg_eq_0_iff [of ?sq] by blast
  have "(x - mean w)\<^sup>2 \<in> set ?sq"
    using assms(2) by simp
  with z have "(x - mean w)\<^sup>2 = 0" by blast
  then show ?thesis by simp
qed

lemma spec_collapsed_bands_close_on_band:
  assumes "i < length xs"
    and "BBL_20_2_0 (indicator_rows xs ! i) = Fin b"
    and "BBU_20_2_0 (indicator_rows xs ! i) = Fin b"
  shows "Close (indicator_rows xs ! i) = Fin b"
proof -
  let ?w = "window 20 xs i"
  have i19: "19 \<le> i"
  proof (rule ccontr)
    assume "\<not> 19 \<le> i"
    with assms(1,2) show False
      by (simp add: indicator_rows_nth bbl_col_def)
  qed
  from assms i19 have l: "mean ?w - 2 * pstdev ?w = b" and u: "mean ?w + 2 * pstdev ?w = b"
    by (simp_all add: indicator_rows_nth bbl_col_def bbu_col_def)
  then have s: "pstdev ?w = 0" and m: "mean ?w = b" by simp_all
  have "?w ! 19 = xs ! i"
    using assms(1) i19 by (simp add: window_def)
  moreover have "19 < length ?w"
    using assms(1) i19 by (simp add: window_def)
  ultimately have "xs ! i \<in> set ?w"
    by (metis nth_mem)
  from pstdev_zero_all_equal [OF s this] m assms(1) show ?thesis
    by (simp add: indicator_rows_nth)
qed

section \<open>Facts about the signals section\<close>

lemma technical_signals_complete:
  assumes "latest_row data = Inr r"
  shows "technical_signals data page = (page @ rendered r, Inr (classify r))"
  using assms
  by (auto simp: latest_row_def technical_signals_def rendered_def classify_def
      signal_snapshot_def bb_percent_def Let_def split: sum.splits)

lemma read_last_frame_of_rows:
  assumes "rs \<noteq> []"
  shows "read_last (frame_of_rows rs) ''Close'' = Inr (Close (last rs))"
    and "read_last (frame_of_rows rs) ''RSI_14'' = Inr (RSI_14 (last rs))"
    and "read_last (frame_of_rows rs) ''MACD_12_26_9'' = Inr (MACD_12_26_9 (last rs))"
    and "read_last (frame_of_rows rs) ''MACDs_12_26_9'' = Inr (MACDs_12_26_9 (last rs))"
    and "read_last (frame_of_rows rs) ''SMA_20'' = Inr (SMA_20 (last rs))"
    and "read_last (frame_of_rows rs) ''BBL_20_2.0'' = Inr (BBL_20_2_0 (last rs))"
    and "read_last (frame_of_rows rs) ''BBU_20_2.0'' = Inr (BBU_20_2_0 (last rs))"
  using assms
  by (simp_all add: read_last_def getitem_def iloc_last_def frame_of_rows_def last_map)

lemma latest_row_frame_of_rows:
  assumes "rs \<noteq> []"
  shows "latest_row (frame_of_rows rs) = Inr (last rs)"
  using assms by (simp add: latest_row_def read_last_frame_of_rows)

lemma quiet_row_advice: "trading_advice quiet_row = [fallback_line]"
  by (simp add: quiet_row_def trading_advice_eq rule_lines_eq fgt_def fsub_def
      round64_3 round64_1)





lemma append_columns_Nil [simp]: "append_columns df [] = df"
  by (simp add: append_columns_def)


lemma rounded_margin_example:
  "3602879701896397 / 2 ^ 55 + 1 < (4953959590107546 / 2 ^ 52 :: real) \<and>
   bullish_line \<notin> set (trading_advice
     (quiet_row\<lparr>MACD_12_26_9 := Fin (4953959590107546 / 2 ^ 52),
                MACDs_12_26_9 := Fin (3602879701896397 / 2 ^ 55)\<rparr>))"
proof -
  have "(3602879701896397 / 2 ^ 55 + 1 :: real) = 1 + 3602879701896397 / 2 ^ 55"
    by simp
  then have "round64 (3602879701896397 / 2 ^ 55 + 1) = Fin (4953959590107546 / 2 ^ 52)"
    by (simp only: round64_1_1)
  then have "fadd (Fin (3602879701896397 / 2 ^ 55)) (Fin 1) = Fin (4953959590107546 / 2 ^ 52)"
    by (simp only: fadd.simps) simp
  then show ?thesis
    by (simp add: mem_bullish quiet_row_def fgt_def)
qed

section \<open>Undefined and coinciding values\<close>

lemma feq_fsub: "feq a b \<Longrightarrow> is_nan (fsub a b) \<or> is_zero (fsub a b)"
  by (cases a; cases b) (auto simp: feq_def fsub_def)

lemma fdiv_of_zeros:
  assumes "is_nan a \<or> is_zero a" and "is_nan b \<or> is_zero b"
  shows "fdiv a b = NaN"
  using assms by (cases a; cases b) (auto simp: fdiv_def)

lemma feq_no_breach:
  assumes "feq u l" and "feq c l"
  shows "\<not> flt u c" and "\<not> flt c l"
  using assms by (cases u; cases l; cases c; auto simp: feq_def)+

lemma bb_status_of_NaN: "bb_status_of NaN = Normal"
  by (simp add: bb_status_of_def fgt_def)

section \<open>Properties of the signal pipeline\<close>

text \<open>
  C1, as stated: on every row with \<open>bbUpper = bbLower\<close> (zero volatility over the
  trailing 20 closes) the classifier skips the Bollinger rule, producing no Bollinger
  status and no Bollinger advice line, and never divides by zero. The source has no such
  guard. With twenty closes at 50000 the bands and the close are all 50000: line 153
  divides 0 by 0, and the Bollinger metric shows the NaN quotient with the status Normal.
\<close>

theorem collapsed_bands_counterexample:
  "classify \<lparr> Close = Fin 50000, RSI_14 = Fin 50, MACD_12_26_9 = Fin 2,
              MACDs_12_26_9 = Fin 2, SMA_20 = Fin 50000, BBL_20_2_0 = Fin 50000,
              BBU_20_2_0 = Fin 50000 \<rparr> =
     (\<lparr> rsiStatus = Neutral, macdStatus = Bearish, bbPercent = NaN,
        bollingerStatus = Normal, trendDirection = Bearish \<rparr>, [fallback_line])"
  by (simp add: classify_def signal_snapshot_def rsi_status_of_def macd_status_of_def
      bb_percent_def bb_percent_of_def bb_status_of_NaN trend_of_def trading_advice_eq
      rule_lines_eq fgt_def fsub_def fdiv_def round64_3 round64_1)

text \<open>
  C1, amended: on every row in which \<open>bbUpper\<close> equals \<open>bbLower\<close> and the close lies
  on that band (zero volatility over the trailing 20 closes), the classifier does not
  skip the Bollinger rule. It forms the quotient of two zeros as a float division, which
  does not raise and yields NaN, and it reports the Bollinger status Normal. It emits no
  Bollinger advice line.
\<close>

theorem collapsed_bands_status_normal:
  assumes "feq (BBU_20_2_0 r) (BBL_20_2_0 r)" and "feq (Close r) (BBL_20_2_0 r)"
  shows "bbPercent (fst (classify r)) = NaN \<and>
         bollingerStatus (fst (classify r)) = Normal \<and>
         above_band_line \<notin> set (snd (classify r)) \<and>
         below_band_line \<notin> set (snd (classify r))"
proof -
  have p: "bb_percent r = NaN"
    unfolding bb_percent_def bb_percent_of_def
    by (intro fdiv_of_zeros feq_fsub assms)
  have a: "above_band_line \<notin> set (trading_advice r)"
    using feq_no_breach(1) [OF assms] by (simp add: mem_above_band fgt_def)
  have b: "below_band_line \<notin> set (trading_advice r)"
    using feq_no_breach(2) [OF assms] by (simp add: mem_below_band)
  from p a b show ?thesis
    by (simp add: classify_def signal_snapshot_def bb_status_of_NaN)
qed

theorem collapsed_bands_status_normal_witness:
  "feq (BBU_20_2_0 (quiet_row\<lparr>Close := Fin 0, BBL_20_2_0 := Fin 0, BBU_20_2_0 := NZero\<rparr>))
       (BBL_20_2_0 (quiet_row\<lparr>Close := Fin 0, BBL_20_2_0 := Fin 0, BBU_20_2_0 := NZero\<rparr>)) \<and>
   feq (Close (quiet_row\<lparr>Close := Fin 0, BBL_20_2_0 := Fin 0, BBU_20_2_0 := NZero\<rparr>))
       (BBL_20_2_0 (quiet_row\<lparr>Close := Fin 0, BBL_20_2_0 := Fin 0, BBU_20_2_0 := NZero\<rparr>)) \<and>
   bbPercent (fst (classify
     (quiet_row\<lparr>Close := Fin 0, BBL_20_2_0 := Fin 0, BBU_20_2_0 := NZero\<rparr>))) = NaN \<and>
   bollingerStatus (fst (classify
     (quiet_row\<lparr>Close := Fin 0, BBL_20_2_0 := Fin 0, BBU_20_2_0 := NZero\<rparr>))) = Normal"
  using collapsed_bands_status_normal
    [of "quiet_row\<lparr>Close := Fin 0, BBL_20_2_0 := Fin 0, BBU_20_2_0 := NZero\<rparr>"]
  by (simp add: feq_def)




text \<open>
  C3: when the RSI rule, the MACD margin rule and the Bollinger breach rule all fire,
  the advice list is exactly the RSI line, then the MACD line, then the Bollinger line.
\<close>

theorem advice_order_all_three:
  assumes "fgt (RSI_14 r) (Fin 70) \<or> flt (RSI_14 r) (Fin 30)"
    and "fgt (MACD_12_26_9 r) (fadd (MACDs_12_26_9 r) (Fin 1)) \<or>
         flt (MACD_12_26_9 r) (fsub (MACDs_12_26_9 r) (Fin 1))"
    and "fgt (Close r) (BBU_20_2_0 r) \<or> flt (Close r) (BBL_20_2_0 r)"
  shows "trading_advice r =
     [if fgt (RSI_14 r) (Fin 70) then overbought_line else oversold_line,
      if fgt (MACD_12_26_9 r) (fadd (MACDs_12_26_9 r) (Fin 1)) then bullish_line
      else bearish_line,
      if fgt (Close r) (BBU_20_2_0 r) then above_band_line else below_band_line]"
proof -
  have "rule_lines r \<noteq> []"
    using assms(1) by (auto simp: rule_lines_empty_iff)
  then have "trading_advice r = rule_lines r"
    by (simp add: trading_advice_eq)
  then show ?thesis
    using assms by (auto simp: rule_lines_eq)
qed

theorem advice_order_all_three_witness:
  "(fgt (Fin 75) (Fin 70) \<or> flt (Fin 75) (Fin 30)) \<and>
   (fgt (Fin 5) (fadd (Fin 2) (Fin 1)) \<or> flt (Fin 5) (fsub (Fin 2) (Fin 1))) \<and>
   (fgt (Fin 110) (Fin 105) \<or> flt (Fin 110) (Fin 90)) \<and>
   trading_advice (quiet_row\<lparr>Close := Fin 110, RSI_14 := Fin 75, MACD_12_26_9 := Fin 5\<rparr>) =
     [overbought_line, bullish_line, above_band_line]"
  using advice_order_all_three
    [of "quiet_row\<lparr>Close := Fin 110, RSI_14 := Fin 75, MACD_12_26_9 := Fin 5\<rparr>"]
  by (simp add: quiet_row_def fgt_def fsub_def round64_3 round64_1)

text \<open>
  C4: for finite \<open>macd\<close> and \<open>macdSignal\<close> the MACD status is Bullish exactly when
  \<open>macd > macdSignal\<close> and Bearish otherwise, while the advice goes by the margin:
  the bullish line exactly when \<open>macd > macdSignal + 1.0\<close>, the bearish line exactly
  when \<open>macd < macdSignal - 1.0\<close>, the sum and the difference being the rounded float
  ones of lines 171 and 173. A line is emitted only when the margin exceeds 1 over the
  reals as well, and none is emitted when the margin is within 1, also when the status
  is Bullish.
\<close>

theorem macd_status_zero_advice_margin:
  assumes "MACD_12_26_9 r = Fin m" and "MACDs_12_26_9 r = Fin s" and "round64 m = Fin m"
  shows "macdStatus (fst (classify r)) = (if s < m then Bullish else Bearish) \<and>
         (bullish_line \<in> set (snd (classify r)) \<longleftrightarrow> fgt (Fin m) (fadd (Fin s) (Fin 1))) \<and>
         (bearish_line \<in> set (snd (classify r)) \<longleftrightarrow> flt (Fin m) (fsub (Fin s) (Fin 1))) \<and>
         (bullish_line \<in> set (snd (classify r)) \<longrightarrow> s + 1 < m) \<and>
         (bearish_line \<in> set (snd (classify r)) \<longrightarrow> m < s - 1) \<and>
         (s - 1 \<le> m \<and> m \<le> s + 1 \<longrightarrow>
            bullish_line \<notin> set (snd (classify r)) \<and>
            bearish_line \<notin> set (snd (classify r)))"
proof -
  have up: "\<not> fgt (Fin m) (fadd (Fin s) (Fin 1))" if "m \<le> s + 1"
    using that round64_not_below [OF assms(3), of "s + 1"] by (auto simp: fgt_def)
  have down: "\<not> flt (Fin m) (fsub (Fin s) (Fin 1))" if "s - 1 \<le> m"
    using that round64_not_above [OF assms(3), of "s - 1"] by (auto simp: fsub_def)
  have st: "macdStatus (fst (classify r)) = (if s < m then Bullish else Bearish)"
    using assms by (simp add: classify_def signal_snapshot_def macd_status_of_def fgt_def)
  have bu: "bullish_line \<in> set (snd (classify r)) \<longleftrightarrow> fgt (Fin m) (fadd (Fin s) (Fin 1))"
    using assms by (simp add: classify_def mem_bullish)
  have be: "bearish_line \<in> set (snd (classify r)) \<longleftrightarrow> flt (Fin m) (fsub (Fin s) (Fin 1))"
  proof -
    have "\<not> fgt (Fin m) (fadd (Fin s) (Fin 1))" if "flt (Fin m) (fsub (Fin s) (Fin 1))"
    proof -
      from that down have "m < s - 1" by fastforce
      then show ?thesis by (intro up) simp
    qed
    then show ?thesis
      using assms by (auto simp: classify_def mem_bearish)
  qed
  have r1: "s + 1 < m" if "bullish_line \<in> set (snd (classify r))"
  proof (rule ccontr)
    assume "\<not> s + 1 < m"
    then have "m \<le> s + 1" by simp
    from up [OF this] bu that show False by simp
  qed
  have r2: "m < s - 1" if "bearish_line \<in> set (snd (classify r))"
  proof (rule ccontr)
    assume "\<not> m < s - 1"
    then have "s - 1 \<le> m" by simp
    from down [OF this] be that show False by simp
  qed
  have r3: "bullish_line \<notin> set (snd (classify r)) \<and> bearish_line \<notin> set (snd (classify r))"
    if "s - 1 \<le> m \<and> m \<le> s + 1"
    using that up down bu be by simp
  from st bu be r1 r2 r3 show ?thesis
    by blast
qed

theorem macd_status_zero_advice_margin_witness:
  "MACD_12_26_9 (quiet_row\<lparr>MACD_12_26_9 := Fin (5 / 2)\<rparr>) = Fin (5 / 2) \<and>
   MACDs_12_26_9 (quiet_row\<lparr>MACD_12_26_9 := Fin (5 / 2)\<rparr>) = Fin 2 \<and>
   round64 (5 / 2) = Fin (5 / 2) \<and>
   (2::real) - 1 \<le> 5 / 2 \<and> (5 / 2 :: real) \<le> 2 + 1 \<and>
   macdStatus (fst (classify (quiet_row\<lparr>MACD_12_26_9 := Fin (5 / 2)\<rparr>))) = Bullish \<and>
   bullish_line \<notin> set (snd (classify (quiet_row\<lparr>MACD_12_26_9 := Fin (5 / 2)\<rparr>))) \<and>
   bearish_line \<notin> set (snd (classify (quiet_row\<lparr>MACD_12_26_9 := Fin (5 / 2)\<rparr>)))"
proof -
  have d: "round64 (5 / 2) = Fin (5 / 2)"
    using round64_exact [of "5 * 2 ^ 50" "- 51"] by simp
  show ?thesis
    using d macd_status_zero_advice_margin
      [of "quiet_row\<lparr>MACD_12_26_9 := Fin (5 / 2)\<rparr>" "5 / 2" 2]
    by (simp add: quiet_row_def fgt_def fsub_def round64_3 round64_1)
qed




text \<open>
  C6: if none of the RSI, MACD margin and Bollinger breach rules produced a line, the
  advice is the fallback line alone; if any of them did, the fallback line is absent.
\<close>

theorem fallback_iff_no_rule_fired:
  "(if fgt (RSI_14 r) (Fin 70) \<or> flt (RSI_14 r) (Fin 30) \<or>
       fgt (MACD_12_26_9 r) (fadd (MACDs_12_26_9 r) (Fin 1)) \<or>
       flt (MACD_12_26_9 r) (fsub (MACDs_12_26_9 r) (Fin 1)) \<or>
       fgt (Close r) (BBU_20_2_0 r) \<or> flt (Close r) (BBL_20_2_0 r)
    then fallback_line \<notin> set (trading_advice r)
    else trading_advice r = [fallback_line])"
proof (cases "rule_lines r = []")
  case True
  then show ?thesis
    using rule_lines_empty_iff [of r] by (simp add: trading_advice_eq)
next
  case False
  then show ?thesis
    using rule_lines_empty_iff [of r] fallback_notin_rule_lines [of r]
    by (simp add: trading_advice_eq)
qed

text \<open>
  C7: for every well-formed series the engine returns a frame of the same length, and
  every entry before an indicator's lookback window is undefined (NaN, not zero): the
  first 14 bars for RSI, the first 19 for SMA20 and the Bollinger bands, the first 25
  for the MACD line and the first 33 for its signal.
\<close>

theorem frame_length_and_undefined_before_lookback:
  assumes "well_formed s"
  shows "\<exists>f. computeIndicators s = Inr f \<and> length f = length s \<and>
           (\<forall>i<length s.
              (i < 14 \<longrightarrow> RSI_14 (f ! i) = NaN) \<and>
              (i < 19 \<longrightarrow> SMA_20 (f ! i) = NaN \<and> BBL_20_2_0 (f ! i) = NaN \<and>
                          BBU_20_2_0 (f ! i) = NaN) \<and>
              (i < 25 \<longrightarrow> MACD_12_26_9 (f ! i) = NaN) \<and>
              (i < 33 \<longrightarrow> MACDs_12_26_9 (f ! i) = NaN))"
proof -
  define xs where "xs = map (\<lambda>b. the (close b)) s"
  have len: "length xs = length s"
    by (simp add: xs_def)
  have run: "computeIndicators s = Inr (indicator_rows xs)"
    using assms by (simp add: computeIndicators_def xs_def)
  have early: "(i < 14 \<longrightarrow> RSI_14 (indicator_rows xs ! i) = NaN) \<and>
      (i < 19 \<longrightarrow> SMA_20 (indicator_rows xs ! i) = NaN \<and>
         BBL_20_2_0 (indicator_rows xs ! i) = NaN \<and>
         BBU_20_2_0 (indicator_rows xs ! i) = NaN) \<and>
      (i < 25 \<longrightarrow> MACD_12_26_9 (indicator_rows xs ! i) = NaN) \<and>
      (i < 33 \<longrightarrow> MACDs_12_26_9 (indicator_rows xs ! i) = NaN)"
    if "i < length s" for i
    using that len
    by (simp add: indicator_rows_nth rsi_col_early sma_col_early bbl_col_early
        bbu_col_early macd_col_early signal_col_early)
  from run len early show ?thesis
    by simp
qed

theorem frame_length_and_undefined_before_lookback_witness:
  "well_formed (flat_series 20 50000) \<and>
   (\<exists>f. computeIndicators (flat_series 20 50000) = Inr f \<and> length f = 20 \<and>
        RSI_14 (f ! 13) = NaN \<and> SMA_20 (f ! 18) = NaN \<and> SMA_20 (f ! 18) \<noteq> Fin 0 \<and>
        MACD_12_26_9 (f ! 19) = NaN \<and> MACDs_12_26_9 (f ! 19) = NaN)"
proof -
  have w: "well_formed (flat_series 20 50000)"
    by (simp add: flat_series_def well_formed_series_of)
  have l: "length (flat_series 20 50000) = 20"
    by (simp add: flat_series_def series_of_def)
  from frame_length_and_undefined_before_lookback [OF w] l
  obtain f where f: "computeIndicators (flat_series 20 50000) = Inr f" "length f = 20"
    and e: "\<forall>i<20.
              (i < 14 \<longrightarrow> RSI_14 (f ! i) = NaN) \<and>
              (i < 19 \<longrightarrow> SMA_20 (f ! i) = NaN \<and> BBL_20_2_0 (f ! i) = NaN \<and>
                          BBU_20_2_0 (f ! i) = NaN) \<and>
              (i < 25 \<longrightarrow> MACD_12_26_9 (f ! i) = NaN) \<and>
              (i < 33 \<longrightarrow> MACDs_12_26_9 (f ! i) = NaN)"
    by auto
  from e have "RSI_14 (f ! 13) = NaN" "SMA_20 (f ! 18) = NaN"
    "MACD_12_26_9 (f ! 19) = NaN" "MACDs_12_26_9 (f ! 19) = NaN"
    by simp_all
  with w f show ?thesis by auto
qed

text \<open>
  C8, as stated: the classification is pure and deterministic, two runs on the same
  latest values yielding the same snapshot and the same advice, with no side effects.
  In the source the classification is not a function of its own: lines 139 to 185 write
  each metric and each advice line to the page as they compute it. A run on an empty
  page leaves eight elements on it.
\<close>

theorem signals_write_to_page_counterexample:
  "length (fst (technical_signals (frame_of_rows [quiet_row]) [])) = 8"
  by (simp add: technical_signals_complete latest_row_frame_of_rows rendered_def
      quiet_row_advice)

text \<open>
  C8, amended: the signals section is deterministic and depends on the latest values
  alone. Two runs on frames with the same latest indicator values and latest close, from
  any two pages, yield the same snapshot and the same advice list in the same order, and
  write the same elements. The section is not free of side effects: it appends those
  elements (the four metrics, the two subheaders, one line per advice item) to the page.
  That is its only effect; what was on the page stays.
\<close>

theorem same_latest_row_same_signals:
  assumes "latest_row data1 = Inr r" and "latest_row data2 = Inr r"
  shows "technical_signals data1 page1 = (page1 @ rendered r, Inr (classify r)) \<and>
         technical_signals data2 page2 = (page2 @ rendered r, Inr (classify r))"
  using assms by (simp add: technical_signals_complete)

theorem same_latest_row_same_signals_witness:
  "latest_row (frame_of_rows [quiet_row]) = Inr quiet_row \<and>
   latest_row (frame_of_rows [quiet_row\<lparr>RSI_14 := Fin 90\<rparr>, quiet_row]) = Inr quiet_row \<and>
   technical_signals (frame_of_rows [quiet_row]) [] =
     (rendered quiet_row, Inr (classify quiet_row)) \<and>
   technical_signals (frame_of_rows [quiet_row\<lparr>RSI_14 := Fin 90\<rparr>, quiet_row])
       [Write ''earlier''] =
     ([Write ''earlier''] @ rendered quiet_row, Inr (classify quiet_row))"
proof -
  have a: "latest_row (frame_of_rows [quiet_row]) = Inr quiet_row"
    by (simp add: latest_row_frame_of_rows)
  have b: "latest_row (frame_of_rows [quiet_row\<lparr>RSI_14 := Fin 90\<rparr>, quiet_row]) =
      Inr quiet_row"
    by (simp add: latest_row_frame_of_rows)
  from same_latest_row_same_signals [OF a b, of "[]" "[Write ''earlier'']"] a b
  show ?thesis by simp
qed

text \<open>
  C9: when the latest RSI is undefined (NaN) the RSI status is Neutral and neither RSI
  advice line is emitted, since both comparisons are false on NaN.
\<close>

theorem undefined_rsi_is_neutral:
  assumes "RSI_14 r = NaN"
  shows "rsiStatus (fst (classify r)) = Neutral \<and>
         overbought_line \<notin> set (snd (classify r)) \<and>
         oversold_line \<notin> set (snd (classify r))"
  using assms
  by (simp add: classify_def signal_snapshot_def rsi_status_of_def mem_overbought
      mem_oversold fgt_def)

theorem undefined_rsi_is_neutral_witness:
  "RSI_14 (quiet_row\<lparr>RSI_14 := NaN, MACD_12_26_9 := Fin 5\<rparr>) = NaN \<and>
   rsiStatus (fst (classify (quiet_row\<lparr>RSI_14 := NaN, MACD_12_26_9 := Fin 5\<rparr>))) = Neutral \<and>
   snd (classify (quiet_row\<lparr>RSI_14 := NaN, MACD_12_26_9 := Fin 5\<rparr>)) = [bullish_line]"
  using undefined_rsi_is_neutral [of "quiet_row\<lparr>RSI_14 := NaN, MACD_12_26_9 := Fin 5\<rparr>"]
  by (simp add: quiet_row_def classify_def trading_advice_eq rule_lines_eq fgt_def fsub_def
      round64_3 round64_1)

text \<open>
  C10: the advice list has between one and three lines. Each of the three rules
  contributes at most one line (its two lines exclude each other), and the fallback
  line appears only alone.
\<close>

theorem advice_between_one_and_three:
  "1 \<le> length (trading_advice r) \<and> length (trading_advice r) \<le> 3 \<and>
   length (filter (\<lambda>l. l = overbought_line \<or> l = oversold_line) (trading_advice r)) \<le> 1 \<and>
   length (filter (\<lambda>l. l = bullish_line \<or> l = bearish_line) (trading_advice r)) \<le> 1 \<and>
   length (filter (\<lambda>l. l = above_band_line \<or> l = below_band_line) (trading_advice r)) \<le> 1 \<and>
   (fallback_line \<in> set (trading_advice r) \<longrightarrow> trading_advice r = [fallback_line])"
  using advice_length [of r] rsi_lines_once [of r] macd_lines_once [of r]
    band_lines_once [of r] fallback_alone [of r]
  by blast

theorem advice_between_one_and_three_witness:
  "fallback_line \<in> set (trading_advice quiet_row) \<and>
   trading_advice quiet_row = [fallback_line] \<and> length (trading_advice quiet_row) = 1"
  using advice_between_one_and_three [of quiet_row]
  by (simp add: quiet_row_advice)

end
